theory Spec2Isabelle
  imports Complex_Main
begin

section \<open>JavaScript numbers\<close>

text \<open>
  Every quantity of \<^verbatim>\<open>src/utils/regressionMath.js\<close> is a JavaScript number. The model
  keeps the three special values of IEEE 754 that the code's guards and the function
  \<^verbatim>\<open>isFinite\<close> are about, and takes a finite number to be a real:
  \<^item> \<open>Fin r\<close> is the finite number \<open>r\<close>, \<open>PInf\<close> and \<open>NInf\<close> are \<^verbatim>\<open>Infinity\<close> and
    \<^verbatim>\<open>-Infinity\<close>, \<open>NaN\<close> is \<^verbatim>\<open>NaN\<close>;
  \<^item> the operations follow IEEE 754 on the special values (\<^verbatim>\<open>2 / 0\<close> is \<^verbatim>\<open>Infinity\<close>,
    \<^verbatim>\<open>Infinity * 0\<close>, \<^verbatim>\<open>0 / 0\<close> and \<^verbatim>\<open>Infinity - Infinity\<close> are \<^verbatim>\<open>NaN\<close>, and
    \<^verbatim>\<open>NaN\<close> is absorbing);
  \<^item> on finite operands the result is the exact real result: rounding to 53 bits and
    overflow of a finite result to an infinity are not part of the model;
  \<^item> there is one zero. The sign of a zero is observable only through a division by
    it, and every divisor of the module is an array length, a loop bound, or is
    guarded by a comparison with \<^verbatim>\<open>0\<close>, so the zero divisors that occur are \<^verbatim>\<open>+0\<close>.
\<close>

datatype jsnum = Fin real | PInf | NInf | NaN

instantiation jsnum :: "{zero, uminus, plus, minus, times, inverse}"
begin

definition zero_jsnum :: jsnum where
  "0 = Fin 0"

fun uminus_jsnum :: "jsnum \<Rightarrow> jsnum" where
  "- Fin a = Fin (- a)"
| "- PInf = NInf"
| "- NInf = PInf"
| "- NaN = NaN"

fun plus_jsnum :: "jsnum \<Rightarrow> jsnum \<Rightarrow> jsnum" where
  "Fin a + Fin b = Fin (a + b)"
| "NaN + _ = NaN"
| "_ + NaN = NaN"
| "PInf + NInf = NaN"
| "NInf + PInf = NaN"
| "PInf + _ = PInf"
| "_ + PInf = PInf"
| "NInf + _ = NInf"
| "_ + NInf = NInf"

definition minus_jsnum :: "jsnum \<Rightarrow> jsnum \<Rightarrow> jsnum" where
  "a - b = a + (- b :: jsnum)"

fun times_jsnum :: "jsnum \<Rightarrow> jsnum \<Rightarrow> jsnum" where
  "Fin a * Fin b = Fin (a * b)"
| "NaN * _ = NaN"
| "_ * NaN = NaN"
| "PInf * Fin b = (if b = 0 then NaN else if 0 < b then PInf else NInf)"
| "NInf * Fin b = (if b = 0 then NaN else if 0 < b then NInf else PInf)"
| "Fin a * PInf = (if a = 0 then NaN else if 0 < a then PInf else NInf)"
| "Fin a * NInf = (if a = 0 then NaN else if 0 < a then NInf else PInf)"
| "PInf * PInf = PInf"
| "PInf * NInf = NInf"
| "NInf * PInf = NInf"
| "NInf * NInf = PInf"

fun divide_jsnum :: "jsnum \<Rightarrow> jsnum \<Rightarrow> jsnum" where
  "divide (Fin a) (Fin b) =
     (if b = 0 then (if a = 0 then NaN else if 0 < a then PInf else NInf)
      else Fin (a / b))"
| "divide NaN _ = NaN"
| "divide _ NaN = NaN"
| "divide (Fin a) PInf = Fin 0"
| "divide (Fin a) NInf = Fin 0"
| "divide PInf (Fin b) = (if 0 \<le> b then PInf else NInf)"
| "divide NInf (Fin b) = (if 0 \<le> b then NInf else PInf)"
| "divide _ _ = NaN"

definition inverse_jsnum :: "jsnum \<Rightarrow> jsnum" where
  "inverse a = divide (Fin 1) (a :: jsnum)"

instance ..

end

instance jsnum :: comm_monoid_add
proof
  fix u v w :: jsnum
  show "u + v = v + u"
    by (cases u; cases v) simp_all
  show "0 + u = u"
    unfolding zero_jsnum_def by (cases u) simp_all
  show "u + v + w = u + (v + w)"
    by (cases u; cases v; cases w) simp_all
qed

text \<open>\<^verbatim>\<open>isFinite(v)\<close>: false for \<^verbatim>\<open>NaN\<close> and the two infinities.\<close>

fun isFinite :: "jsnum \<Rightarrow> bool" where
  "isFinite (Fin a) = True"
| "isFinite _ = False"

text \<open>\<^verbatim>\<open>v ** 2\<close>: \<^verbatim>\<open>NaN\<close> stays, an infinity of either sign gives \<^verbatim>\<open>Infinity\<close>.\<close>

fun jsq :: "jsnum \<Rightarrow> jsnum" where
  "jsq (Fin a) = Fin (a\<^sup>2)"
| "jsq NaN = NaN"
| "jsq _ = PInf"

text \<open>\<^verbatim>\<open>Math.sqrt(v)\<close>: \<^verbatim>\<open>NaN\<close> below zero.\<close>

fun jsqrt :: "jsnum \<Rightarrow> jsnum" where
  "jsqrt (Fin a) = (if a < 0 then NaN else Fin (sqrt a))"
| "jsqrt PInf = PInf"
| "jsqrt _ = NaN"

text \<open>\<^verbatim>\<open>Math.abs(v)\<close>.\<close>

fun jabs :: "jsnum \<Rightarrow> jsnum" where
  "jabs (Fin a) = Fin \<bar>a\<bar>"
| "jabs NaN = NaN"
| "jabs _ = PInf"

text \<open>\<^verbatim>\<open>a > b\<close> on numbers: false as soon as one side is \<^verbatim>\<open>NaN\<close>.\<close>

fun jgt :: "jsnum \<Rightarrow> jsnum \<Rightarrow> bool" where
  "jgt (Fin a) (Fin b) = (b < a)"
| "jgt NaN _ = False"
| "jgt _ NaN = False"
| "jgt PInf b = (b \<noteq> PInf)"
| "jgt a NInf = (a \<noteq> NInf)"
| "jgt _ _ = False"

text \<open>\<^verbatim>\<open>a === b\<close> on numbers: \<^verbatim>\<open>NaN\<close> is equal to nothing, itself included.\<close>

definition jeq :: "jsnum \<Rightarrow> jsnum \<Rightarrow> bool" where
  "jeq a b = (a \<noteq> NaN \<and> b \<noteq> NaN \<and> a = b)"

text \<open>An array length or a loop counter, read as a number.\<close>

definition num :: "nat \<Rightarrow> jsnum" where
  "num n = Fin (real n)"

section \<open>Data\<close>

text \<open>A point \<^verbatim>\<open>{x, y}\<close>; the fields are \<open>px\<close> and \<open>py\<close>.\<close>

record point =
  px :: jsnum
  py :: jsnum

text \<open>One entry of \<^verbatim>\<open>predictions\<close>: \<^verbatim>\<open>{x, yActual, yPredicted}\<close>.\<close>

record prediction =
  pr_x :: jsnum
  yActual :: jsnum
  yPredicted :: jsnum

text \<open>
  The object \<^verbatim>\<open>calculateLinearRegression\<close> returns. Its early return has no
  \<^verbatim>\<open>meanX\<close> and \<^verbatim>\<open>meanY\<close> properties, so the two fields are optional.
\<close>

record fit_result =
  fit_slope :: jsnum
  fit_intercept :: jsnum
  predictions :: "prediction list"
  meanX :: "jsnum option"
  meanY :: "jsnum option"

section \<open>Least squares fit\<close>

definition calculateLinearRegression :: "point list \<Rightarrow> fit_result" where
  "calculateLinearRegression points =
     (if length points < 2 then
        \<lparr>fit_slope = Fin 0, fit_intercept = Fin 0, predictions = [], meanX = None, meanY = None\<rparr>
      else
        let n = num (length points);
            sumX = fold (\<lambda>p acc. acc + px p) points (Fin 0);
            sumY = fold (\<lambda>p acc. acc + py p) points (Fin 0);
            mX = sumX / n;
            mY = sumY / n;
            (numerator, denominator) =
              fold (\<lambda>p (numerator, denominator).
                      (numerator + (px p - mX) * (py p - mY),
                       denominator + jsq (px p - mX)))
                   points (Fin 0, Fin 0);
            slope = (if \<not> jeq denominator (Fin 0) then numerator / denominator else Fin 0);
            intercept = mY - slope * mX
        in \<lparr>fit_slope = slope, fit_intercept = intercept,
            predictions = map (\<lambda>p. \<lparr>pr_x = px p, yActual = py p,
                                     yPredicted = slope * px p + intercept\<rparr>) points,
            meanX = Some mX, meanY = Some mY\<rparr>)"

section \<open>Error metrics\<close>

definition calculateMSE :: "point list \<Rightarrow> jsnum \<Rightarrow> jsnum \<Rightarrow> jsnum" where
  "calculateMSE points slope intercept =
     (if length points = 0 then Fin 0
      else
        let sumSquaredError =
              fold (\<lambda>p acc. let predicted = slope * px p + intercept
                             in acc + jsq (py p - predicted)) points (Fin 0)
        in sumSquaredError / num (length points))"

definition calculateRMSE :: "point list \<Rightarrow> jsnum \<Rightarrow> jsnum \<Rightarrow> jsnum" where
  "calculateRMSE points slope intercept = jsqrt (calculateMSE points slope intercept)"

definition calculateR2 :: "point list \<Rightarrow> jsnum \<Rightarrow> jsnum \<Rightarrow> jsnum" where
  "calculateR2 points slope intercept =
     (if length points < 2 then Fin 0
      else
        let mY = fold (\<lambda>p acc. acc + py p) points (Fin 0) / num (length points);
            ssRes = fold (\<lambda>p acc. let predicted = slope * px p + intercept
                                   in acc + jsq (py p - predicted)) points (Fin 0);
            ssTot = fold (\<lambda>p acc. acc + jsq (py p - mY)) points (Fin 0)
        in if jeq ssTot (Fin 0) then Fin 0
           else Fin 1 - (ssRes / ssTot))"

section \<open>Normal equation\<close>

definition normalEquation :: "point list \<Rightarrow> fit_result" where
  "normalEquation points = calculateLinearRegression points"

section \<open>Gradient descent\<close>

text \<open>One element of \<^verbatim>\<open>history\<close>; the fields \<^verbatim>\<open>slope\<close> and \<^verbatim>\<open>intercept\<close> are
  \<open>e_slope\<close> and \<open>e_intercept\<close>.\<close>

record epoch_record =
  epoch :: nat
  e_slope :: jsnum
  e_intercept :: jsnum
  loss :: jsnum
  slopeGradient :: jsnum
  interceptGradient :: jsnum

record optimization_run =
  finalSlope :: jsnum
  finalIntercept :: jsnum
  history :: "epoch_record list"
  converged :: bool

text \<open>
  The body of the \<^verbatim>\<open>for\<close> loop up to the object it pushes: from the loop counter \<open>i\<close>
  and the current \<open>slope\<close> and \<open>intercept\<close> to the record of epoch \<open>i + 1\<close>, which holds
  the updated parameters. \<open>slopeSum\<close> and \<open>interceptSum\<close> are \<^verbatim>\<open>slopeGradient\<close> and
  \<^verbatim>\<open>interceptGradient\<close> after the \<^verbatim>\<open>forEach\<close>, before they are scaled by \<^verbatim>\<open>2 / n\<close>.
\<close>

definition gd_epoch :: "point list \<Rightarrow> jsnum \<Rightarrow> nat \<Rightarrow> jsnum \<Rightarrow> jsnum \<Rightarrow> epoch_record" where
  "gd_epoch points learningRate i slope intercept =
     (let n = num (length points);
          (slopeSum, interceptSum) =
            fold (\<lambda>p (sg, ig).
                    let prediction = slope * px p + intercept;
                        error = prediction - py p
                    in (sg + error * px p, ig + error))
                 points (Fin 0, Fin 0);
          sGradient = (Fin 2 / n) * slopeSum;
          iGradient = (Fin 2 / n) * interceptSum;
          slope' = slope - learningRate * sGradient;
          intercept' = intercept - learningRate * iGradient;
          mse = calculateMSE points slope' intercept'
      in \<lparr>epoch = i + 1, e_slope = slope', e_intercept = intercept', loss = mse,
          slopeGradient = sGradient, interceptGradient = iGradient\<rparr>)"

text \<open>
  The loop \<^verbatim>\<open>for (let i = 0; i < iterations; i++)\<close> on the state \<open>(slope, intercept, history)\<close>,
  with its \<^verbatim>\<open>break\<close>. \<open>iterations\<close> is a count, a natural number.
\<close>

function gd_loop ::
  "point list \<Rightarrow> jsnum \<Rightarrow> nat \<Rightarrow> nat \<Rightarrow> jsnum \<times> jsnum \<times> epoch_record list
     \<Rightarrow> jsnum \<times> jsnum \<times> epoch_record list" where
  "gd_loop points learningRate iterations i (slope, intercept, hist) =
     (if i < iterations then
        let r = gd_epoch points learningRate i slope intercept;
            hist' = hist @ [r]
        in if \<not> isFinite (loss r) then (e_slope r, e_intercept r, hist')
           else gd_loop points learningRate iterations (i + 1) (e_slope r, e_intercept r, hist')
      else (slope, intercept, hist))"
  by pat_completeness auto
termination
  by (relation "measure (\<lambda>(points, learningRate, iterations, i, st). iterations - i)") auto

definition gradientDescent ::
  "point list \<Rightarrow> jsnum \<Rightarrow> nat \<Rightarrow> jsnum \<Rightarrow> jsnum \<Rightarrow> optimization_run" where
  "gradientDescent points learningRate iterations initialSlope initialIntercept =
     (let (slope, intercept, hist) =
            gd_loop points learningRate iterations 0 (initialSlope, initialIntercept, [])
      in \<lparr>finalSlope = slope, finalIntercept = intercept, history = hist,
          converged = (length hist > 0 \<and> isFinite (loss (hist ! (length hist - 1))))\<rparr>)"

section \<open>Cost surface\<close>

record cost_surface =
  slopes :: "jsnum list list"
  intercepts :: "jsnum list list"
  costs :: "jsnum list list"

text \<open>
  The inner loop \<^verbatim>\<open>for (let j = 0; j <= resolution; j++)\<close> on the three rows. A range
  \<^verbatim>\<open>[min, max]\<close> is a pair, \<^verbatim>\<open>range[0]\<close> its first and \<^verbatim>\<open>range[1]\<close> its second component;
  \<open>resolution\<close> is a natural number.
\<close>

function cs_inner ::
  "point list \<Rightarrow> jsnum \<times> jsnum \<Rightarrow> jsnum \<times> jsnum \<Rightarrow> jsnum \<Rightarrow> jsnum \<Rightarrow> nat \<Rightarrow> nat \<Rightarrow> nat
     \<Rightarrow> jsnum list \<times> jsnum list \<times> jsnum list \<Rightarrow> jsnum list \<times> jsnum list \<times> jsnum list" where
  "cs_inner points slopeRange interceptRange slopeStep interceptStep resolution i j
       (slopeRow, interceptRow, costRow) =
     (if j \<le> resolution then
        let s = fst slopeRange + num i * slopeStep;
            b = fst interceptRange + num j * interceptStep
        in cs_inner points slopeRange interceptRange slopeStep interceptStep resolution i (j + 1)
             (slopeRow @ [s], interceptRow @ [b], costRow @ [calculateMSE points s b])
      else (slopeRow, interceptRow, costRow))"
  by pat_completeness auto
termination
  by (relation "measure (\<lambda>(points, sR, iR, sS, iS, resolution, i, j, st). Suc resolution - j)") auto

text \<open>The outer loop \<^verbatim>\<open>for (let i = 0; i <= resolution; i++)\<close> on the three grids
  \<^verbatim>\<open>slopes\<close>, \<^verbatim>\<open>intercepts\<close> and \<^verbatim>\<open>costs\<close>.\<close>

function cs_outer ::
  "point list \<Rightarrow> jsnum \<times> jsnum \<Rightarrow> jsnum \<times> jsnum \<Rightarrow> jsnum \<Rightarrow> jsnum \<Rightarrow> nat \<Rightarrow> nat
     \<Rightarrow> jsnum list list \<times> jsnum list list \<times> jsnum list list
     \<Rightarrow> jsnum list list \<times> jsnum list list \<times> jsnum list list" where
  "cs_outer points slopeRange interceptRange slopeStep interceptStep resolution i
       (slopeGrid, interceptGrid, costGrid) =
     (if i \<le> resolution then
        let (slopeRow, interceptRow, costRow) =
              cs_inner points slopeRange interceptRange slopeStep interceptStep resolution i 0
                ([], [], [])
        in cs_outer points slopeRange interceptRange slopeStep interceptStep resolution (i + 1)
             (slopeGrid @ [slopeRow], interceptGrid @ [interceptRow], costGrid @ [costRow])
      else (slopeGrid, interceptGrid, costGrid))"
  by pat_completeness auto
termination
  by (relation "measure (\<lambda>(points, sR, iR, sS, iS, resolution, i, st). Suc resolution - i)") auto

definition generateCostSurface ::
  "point list \<Rightarrow> jsnum \<times> jsnum \<Rightarrow> jsnum \<times> jsnum \<Rightarrow> nat \<Rightarrow> cost_surface" where
  "generateCostSurface points slopeRange interceptRange resolution =
     (let slopeStep = (snd slopeRange - fst slopeRange) / num resolution;
          interceptStep = (snd interceptRange - fst interceptRange) / num resolution;
          (slopeGrid, interceptGrid, costGrid) =
            cs_outer points slopeRange interceptRange slopeStep interceptStep resolution 0
              ([], [], [])
      in \<lparr>slopes = slopeGrid, intercepts = interceptGrid, costs = costGrid\<rparr>)"

section \<open>Outlier detection\<close>

record residual_entry =
  index :: nat
  residual :: jsnum

text \<open>
  \<^verbatim>\<open>Array.prototype.sort(comparefn)\<close>. ECMAScript fixes the result, the stable ascending
  arrangement, when the comparator is a consistent ordering of the elements, and leaves
  the order to the implementation otherwise. The model is a stable insertion sort; as
  \<^verbatim>\<open>SortCompare\<close> does, it reads a comparator result of \<^verbatim>\<open>NaN\<close> as \<^verbatim>\<open>0\<close>.
\<close>

fun js_insert :: "('a \<Rightarrow> 'a \<Rightarrow> jsnum) \<Rightarrow> 'a \<Rightarrow> 'a list \<Rightarrow> 'a list" where
  "js_insert comparefn a [] = [a]"
| "js_insert comparefn a (b # bs) =
     (if jgt (comparefn a b) (Fin 0) then b # js_insert comparefn a bs else a # b # bs)"

definition js_sort :: "('a \<Rightarrow> 'a \<Rightarrow> jsnum) \<Rightarrow> 'a list \<Rightarrow> 'a list" where
  "js_sort comparefn xs = foldr (js_insert comparefn) xs []"

text \<open>\<^verbatim>\<open>Math.floor(v)\<close> of a finite, non-negative \<open>v\<close>, used as an array index.\<close>

definition floor_index :: "real \<Rightarrow> nat" where
  "floor_index v = nat \<lfloor>v\<rfloor>"

definition detectOutliers :: "point list \<Rightarrow> jsnum \<Rightarrow> jsnum \<Rightarrow> nat list" where
  "detectOutliers points slope intercept =
     (if length points < 4 then []
      else
        let residuals =
              map (\<lambda>(p, i). \<lparr>index = i, residual = jabs (py p - (slope * px p + intercept))\<rparr>)
                  (zip points [0..<length points]);
            sorted = js_sort (\<lambda>a b. residual a - residual b) residuals;
            q1Index = floor_index (real (length sorted) * 0.25);
            q3Index = floor_index (real (length sorted) * 0.75);
            q1 = residual (sorted ! q1Index);
            q3 = residual (sorted ! q3Index);
            iqr = q3 - q1;
            threshold = q3 + Fin 1.5 * iqr
        in map index (filter (\<lambda>r. jgt (residual r) threshold) residuals))"

section \<open>Notions used in the statements\<close>

text \<open>The real value of a finite number (and \<open>0\<close> for the special values).\<close>

fun val :: "jsnum \<Rightarrow> real" where
  "val (Fin a) = a"
| "val _ = 0"

text \<open>A point whose two coordinates are finite numbers.\<close>

definition finite_point :: "point \<Rightarrow> bool" where
  "finite_point p = (isFinite (px p) \<and> isFinite (py p))"

text \<open>
  The arithmetic means of the coordinates and the two sums of squares of the coefficient
  of determination, written with the sum over the points, in the arithmetic of the
  numbers above.
\<close>

definition mean_y :: "point list \<Rightarrow> jsnum" where
  "mean_y points = (\<Sum>p\<leftarrow>points. py p) / num (length points)"

definition mean_x :: "point list \<Rightarrow> jsnum" where
  "mean_x points = (\<Sum>p\<leftarrow>points. px p) / num (length points)"

definition SS_res :: "point list \<Rightarrow> jsnum \<Rightarrow> jsnum \<Rightarrow> jsnum" where
  "SS_res points slope intercept = (\<Sum>p\<leftarrow>points. jsq (py p - (slope * px p + intercept)))"

definition SS_tot :: "point list \<Rightarrow> jsnum" where
  "SS_tot points = (\<Sum>p\<leftarrow>points. jsq (py p - mean_y points))"

text \<open>
  A list of epoch records is a chain from \<open>(i, s, b)\<close> when its first record is the one
  the loop body computes from the counter \<open>i\<close> and the parameters \<open>s\<close> and \<open>b\<close>, and every
  later record is computed from the next counter and the parameters of the record before.
\<close>

fun gd_chain :: "point list \<Rightarrow> jsnum \<Rightarrow> nat \<Rightarrow> jsnum \<Rightarrow> jsnum \<Rightarrow> epoch_record list \<Rightarrow> bool" where
  "gd_chain ps lr i s b [] = True"
| "gd_chain ps lr i s b (r # rs) =
     (r = gd_epoch ps lr i s b \<and> gd_chain ps lr (i + 1) (e_slope r) (e_intercept r) rs)"

section \<open>Arithmetic of the special values, and sums\<close>

lemma plus_NaN [simp]: "a + NaN = NaN"
  by (cases a) simp_all

lemma times_NaN [simp]: "a * NaN = NaN"
  by (cases a) simp_all

lemma divide_NaN [simp]: "a / NaN = NaN"
  by (cases a) simp_all

lemma minus_Fin [simp]: "Fin a - Fin b = Fin (a - b)"
  by (simp add: minus_jsnum_def)

lemma minus_NaN [simp]: "NaN - b = NaN" "a - NaN = NaN"
  by (simp_all add: minus_jsnum_def)

lemma minus_infinities [simp]:
  "Fin a - PInf = NInf" "Fin a - NInf = PInf" "PInf - Fin b = PInf" "NInf - Fin b = NInf"
  "PInf - NInf = PInf" "NInf - PInf = NInf" "PInf - PInf = NaN" "NInf - NInf = NaN"
  by (simp_all add: minus_jsnum_def)

lemma fold_add_sum_list:
  fixes f :: "'a \<Rightarrow> jsnum"
  shows "fold (\<lambda>p acc. acc + f p) ps a = a + (\<Sum>p\<leftarrow>ps. f p)"
  by (induction ps arbitrary: a) (simp_all add: add.assoc)

lemma fold_add_sum_list_0:
  fixes f :: "'a \<Rightarrow> jsnum"
  shows "fold (\<lambda>p acc. acc + f p) ps (Fin 0) = (\<Sum>p\<leftarrow>ps. f p)"
  using fold_add_sum_list [of f ps 0] by (simp add: zero_jsnum_def [symmetric])

lemma fold_add2_sum_list:
  fixes f g :: "'a \<Rightarrow> jsnum"
  shows "fold (\<lambda>p (s, t). (s + f p, t + g p)) ps (a, b) =
         (a + (\<Sum>p\<leftarrow>ps. f p), b + (\<Sum>p\<leftarrow>ps. g p))"
  by (induction ps arbitrary: a b) (simp_all add: add.assoc)

lemma fold_add2_sum_list_0:
  fixes f g :: "'a \<Rightarrow> jsnum"
  shows "fold (\<lambda>p (s, t). (s + f p, t + g p)) ps (Fin 0, Fin 0) =
         ((\<Sum>p\<leftarrow>ps. f p), (\<Sum>p\<leftarrow>ps. g p))"
  using fold_add2_sum_list [of f g ps 0 0] by (simp add: zero_jsnum_def [symmetric])

lemma isFinite_iff: "isFinite a \<longleftrightarrow> a = Fin (val a)"
  by (cases a) simp_all

lemma sum_list_Fin:
  "(\<And>p. p \<in> set ps \<Longrightarrow> isFinite (f p)) \<Longrightarrow> (\<Sum>p\<leftarrow>ps. f p) = Fin (\<Sum>p\<leftarrow>ps. val (f p))"
proof (induction ps)
  case Nil
  show ?case by (simp add: zero_jsnum_def)
next
  case (Cons q ps)
  then have "isFinite (f q)" by simp
  then obtain v where "f q = Fin v" by (cases "f q") simp_all
  with Cons show ?case by simp
qed

lemma jeq_Fin0 [simp]: "jeq a (Fin 0) \<longleftrightarrow> a = Fin 0"
  by (auto simp: jeq_def)

lemma calculateMSE_sum:
  "calculateMSE ps m c =
     (if ps = [] then Fin 0
      else (\<Sum>p\<leftarrow>ps. jsq (py p - (m * px p + c))) / num (length ps))"
  by (simp add: calculateMSE_def Let_def fold_add_sum_list_0)

lemma calculateMSE_finite:
  assumes "\<And>p. p \<in> set ps \<Longrightarrow> finite_point p"
  shows "calculateMSE ps (Fin m) (Fin c) =
     Fin ((\<Sum>p\<leftarrow>ps. (val (py p) - (m * val (px p) + c))\<^sup>2) / real (length ps))"
proof (cases "ps = []")
  case True
  then show ?thesis by (simp add: calculateMSE_sum)
next
  case False
  have *: "jsq (py p - (Fin m * px p + Fin c)) = Fin ((val (py p) - (m * val (px p) + c))\<^sup>2)"
    if "p \<in> set ps" for p
  proof -
    from assms [OF that] obtain a b where "px p = Fin a" "py p = Fin b"
      by (cases "px p"; cases "py p") (simp_all add: finite_point_def)
    then show ?thesis by simp
  qed
  have "(\<Sum>p\<leftarrow>ps. jsq (py p - (Fin m * px p + Fin c))) =
        (\<Sum>p\<leftarrow>ps. Fin ((val (py p) - (m * val (px p) + c))\<^sup>2))"
    using * by (intro arg_cong [where f = sum_list] map_cong) simp_all
  also have "\<dots> = Fin (\<Sum>p\<leftarrow>ps. (val (py p) - (m * val (px p) + c))\<^sup>2)"
    using sum_list_Fin [of ps "\<lambda>p. Fin ((val (py p) - (m * val (px p) + c))\<^sup>2)"] by simp
  finally show ?thesis using False by (simp add: calculateMSE_sum num_def)
qed

section \<open>The gradient descent loop\<close>

declare gd_loop.simps [simp del]

lemma gd_epoch_sum:
  "gd_epoch ps lr i s b =
     (let sg = Fin 2 / num (length ps) * (\<Sum>p\<leftarrow>ps. (s * px p + b - py p) * px p);
          ig = Fin 2 / num (length ps) * (\<Sum>p\<leftarrow>ps. s * px p + b - py p)
      in \<lparr>epoch = i + 1, e_slope = s - lr * sg, e_intercept = b - lr * ig,
          loss = calculateMSE ps (s - lr * sg) (b - lr * ig),
          slopeGradient = sg, interceptGradient = ig\<rparr>)"
  by (simp add: gd_epoch_def Let_def fold_add2_sum_list_0)

lemma gd_loop_result:
  "\<exists>new. gd_loop ps lr its i (s, b, hist) =
            (if new = [] then s else e_slope (last new),
             if new = [] then b else e_intercept (last new), hist @ new)
      \<and> gd_chain ps lr i s b new
      \<and> length new \<le> its - i
      \<and> (\<forall>k<length new. \<not> isFinite (loss (new ! k)) \<longrightarrow> Suc k = length new)
      \<and> (length new < its - i \<longrightarrow> new \<noteq> [] \<and> \<not> isFinite (loss (last new)))"
proof (induction "its - i" arbitrary: i s b hist)
  case 0
  then have "gd_loop ps lr its i (s, b, hist) = (s, b, hist)"
    by (subst gd_loop.simps) simp
  with 0 show ?case
    by (intro exI [of _ "[]"]) simp
next
  case (Suc d)
  define r where "r = gd_epoch ps lr i s b"
  from Suc.hyps(2) have lt: "i < its" and d: "d = its - (i + 1)" by simp_all
  show ?case
  proof (cases "isFinite (loss r)")
    case False
    with lt have "gd_loop ps lr its i (s, b, hist) = (e_slope r, e_intercept r, hist @ [r])"
      by (subst gd_loop.simps) (simp add: r_def Let_def)
    with False lt show ?thesis
      by (intro exI [of _ "[r]"]) (simp add: r_def)
  next
    case True
    with lt have step: "gd_loop ps lr its i (s, b, hist) =
        gd_loop ps lr its (i + 1) (e_slope r, e_intercept r, hist @ [r])"
      by (subst gd_loop.simps) (simp add: r_def Let_def)
    from Suc.hyps(1) [OF d, of "e_slope r" "e_intercept r" "hist @ [r]"]
    obtain new where new:
      "gd_loop ps lr its (i + 1) (e_slope r, e_intercept r, hist @ [r]) =
         (if new = [] then e_slope r else e_slope (last new),
          if new = [] then e_intercept r else e_intercept (last new), (hist @ [r]) @ new)"
      "gd_chain ps lr (i + 1) (e_slope r) (e_intercept r) new"
      "length new \<le> its - (i + 1)"
      "\<forall>k<length new. \<not> isFinite (loss (new ! k)) \<longrightarrow> Suc k = length new"
      "length new < its - (i + 1) \<longrightarrow> new \<noteq> [] \<and> \<not> isFinite (loss (last new))"
      by blast
    have "gd_loop ps lr its i (s, b, hist) =
            (if r # new = [] then s else e_slope (last (r # new)),
             if r # new = [] then b else e_intercept (last (r # new)), hist @ (r # new))"
      using step new(1) by simp
    moreover have "gd_chain ps lr i s b (r # new)"
      using new(2) by (simp add: r_def)
    moreover have "length (r # new) \<le> its - i"
      using new(3) lt by simp
    moreover have "\<forall>k<length (r # new). \<not> isFinite (loss ((r # new) ! k)) \<longrightarrow> Suc k = length (r # new)"
    proof (intro allI impI)
      fix k assume "k < length (r # new)" "\<not> isFinite (loss ((r # new) ! k))"
      with True new(4) show "Suc k = length (r # new)"
        by (cases k) auto
    qed
    moreover have "length (r # new) < its - i \<longrightarrow> r # new \<noteq> [] \<and> \<not> isFinite (loss (last (r # new)))"
      using new(5) lt by auto
    ultimately show ?thesis by blast
  qed
qed

lemma gd_chain_nth:
  "gd_chain ps lr i s b h \<Longrightarrow> k < length h \<Longrightarrow>
     h ! k = gd_epoch ps lr (i + k) (if k = 0 then s else e_slope (h ! (k - 1)))
                                    (if k = 0 then b else e_intercept (h ! (k - 1)))"
proof (induction h arbitrary: i s b k)
  case Nil
  then show ?case by simp
next
  case (Cons r rs)
  show ?case
  proof (cases k)
    case 0
    with Cons.prems show ?thesis by simp
  next
    case (Suc j)
    with Cons.prems have "gd_chain ps lr (i + 1) (e_slope r) (e_intercept r) rs" "j < length rs"
      by auto
    from Cons.IH [OF this] Suc show ?thesis
      by (cases j) simp_all
  qed
qed

text \<open>What a run returns, in terms of its history.\<close>

lemma gradientDescent_run:
  "\<exists>h. gradientDescent ps lr its s0 b0 =
          \<lparr>finalSlope = (if h = [] then s0 else e_slope (last h)),
           finalIntercept = (if h = [] then b0 else e_intercept (last h)),
           history = h,
           converged = (h \<noteq> [] \<and> isFinite (loss (last h)))\<rparr>
      \<and> gd_chain ps lr 0 s0 b0 h
      \<and> length h \<le> its
      \<and> (\<forall>k<length h. \<not> isFinite (loss (h ! k)) \<longrightarrow> Suc k = length h)
      \<and> (length h < its \<longrightarrow> h \<noteq> [] \<and> \<not> isFinite (loss (last h)))"
proof -
  from gd_loop_result [of ps lr its 0 s0 b0 "[]"]
  obtain h where h:
    "gd_loop ps lr its 0 (s0, b0, []) =
       (if h = [] then s0 else e_slope (last h), if h = [] then b0 else e_intercept (last h), [] @ h)"
    "gd_chain ps lr 0 s0 b0 h"
    "length h \<le> its - 0"
    "\<forall>k<length h. \<not> isFinite (loss (h ! k)) \<longrightarrow> Suc k = length h"
    "length h < its - 0 \<longrightarrow> h \<noteq> [] \<and> \<not> isFinite (loss (last h))"
    by blast
  have "gradientDescent ps lr its s0 b0 =
          \<lparr>finalSlope = (if h = [] then s0 else e_slope (last h)),
           finalIntercept = (if h = [] then b0 else e_intercept (last h)),
           history = h,
           converged = (h \<noteq> [] \<and> isFinite (loss (last h)))\<rparr>"
    using h(1) by (cases "h = []") (simp_all add: gradientDescent_def last_conv_nth)
  with h(2-5) show ?thesis by auto
qed


lemma epoch_gd_epoch [simp]: "epoch (gd_epoch ps lr i s b) = Suc i"
  by (simp add: gd_epoch_def Let_def split: prod.split)

lemma gd_epoch_empty:
  "gd_epoch [] lr i s b =
     \<lparr>epoch = i + 1, e_slope = NaN, e_intercept = NaN, loss = Fin 0,
      slopeGradient = NaN, interceptGradient = NaN\<rparr>"
  by (simp add: gd_epoch_def num_def calculateMSE_def)

lemma gradientDescent_no_iterations:
  "gradientDescent ps lr 0 s0 b0 =
     \<lparr>finalSlope = s0, finalIntercept = b0, history = [], converged = False\<rparr>"
  by (simp add: gradientDescent_def gd_loop.simps)

text \<open>
  On the empty dataset every run of at least one iteration executes all its epochs (each
  loss is 0) and ends with both parameters \<^verbatim>\<open>NaN\<close>, whatever the learning rate and
  the initial parameters.
\<close>

lemma gradientDescent_empty_any:
  "gradientDescent [] lr (Suc n) s0 b0 =
     \<lparr>finalSlope = NaN, finalIntercept = NaN,
      history = history (gradientDescent [] lr (Suc n) s0 b0),
      converged = True\<rparr>
   \<and> length (history (gradientDescent [] lr (Suc n) s0 b0)) = Suc n"
proof -
  from gradientDescent_run [of "[]" lr "Suc n" s0 b0]
  obtain h where run:
    "gradientDescent [] lr (Suc n) s0 b0 =
       \<lparr>finalSlope = (if h = [] then s0 else e_slope (last h)),
        finalIntercept = (if h = [] then b0 else e_intercept (last h)),
        history = h, converged = (h \<noteq> [] \<and> isFinite (loss (last h)))\<rparr>"
    and chain: "gd_chain [] lr 0 s0 b0 h"
    and len: "length h \<le> Suc n"
    and short: "length h < Suc n \<longrightarrow> h \<noteq> [] \<and> \<not> isFinite (loss (last h))"
    by blast
  have rec: "h ! k = \<lparr>epoch = k + 1, e_slope = NaN, e_intercept = NaN, loss = Fin 0,
      slopeGradient = NaN, interceptGradient = NaN\<rparr>" if "k < length h" for k
    using gd_chain_nth [OF chain that] by (simp add: gd_epoch_empty)
  have last: "last h = \<lparr>epoch = length h, e_slope = NaN, e_intercept = NaN, loss = Fin 0,
      slopeGradient = NaN, interceptGradient = NaN\<rparr>" if "h \<noteq> []"
    using that rec [of "length h - 1"] by (simp add: last_conv_nth)
  have full: "length h = Suc n"
  proof (rule ccontr)
    assume "length h \<noteq> Suc n"
    with len short have "h \<noteq> []" "\<not> isFinite (loss (last h))" by simp_all
    with last show False by simp
  qed
  then have "h \<noteq> []" by auto
  with last full show ?thesis by (simp add: run)
qed

text \<open>
  C1. The claim is that an empty dataset leaves the parameters at their initial values.
  The loop has no guard for \<^verbatim>\<open>n = 0\<close>: on the empty dataset with one iteration, learning
  rate 0.01 and initial parameters 0 and 0, \<^verbatim>\<open>2 / n\<close> is \<^verbatim>\<open>Infinity\<close>, the scaled gradients
  \<^verbatim>\<open>Infinity * 0\<close> are \<^verbatim>\<open>NaN\<close>, and the run returns \<^verbatim>\<open>NaN\<close> for both parameters, with a
  loss of 0 and \<^verbatim>\<open>converged\<close> true.
\<close>

theorem gradientDescent_empty_dataset:
  "gradientDescent [] (Fin 0.01) 1 (Fin 0) (Fin 0) =
     \<lparr>finalSlope = NaN, finalIntercept = NaN,
      history = [\<lparr>epoch = 1, e_slope = NaN, e_intercept = NaN, loss = Fin 0,
                  slopeGradient = NaN, interceptGradient = NaN\<rparr>],
      converged = True\<rparr>"
  by (simp add: gradientDescent_def gd_loop.simps gd_epoch_empty)

text \<open>
  C2. For every input, \<^verbatim>\<open>converged\<close> is true exactly when the history is not empty and
  the loss of its last record is finite. A loss that is not finite raises nothing: the
  run returns with \<^verbatim>\<open>converged\<close> false and a history that ends at that record.
\<close>

theorem gradientDescent_converged_iff:
  "(converged (gradientDescent points learningRate iterations initialSlope initialIntercept) \<longleftrightarrow>
      history (gradientDescent points learningRate iterations initialSlope initialIntercept) \<noteq> []
      \<and> isFinite (loss (last (history
            (gradientDescent points learningRate iterations initialSlope initialIntercept)))))
   \<and> (\<forall>k < length (history
            (gradientDescent points learningRate iterations initialSlope initialIntercept)).
         \<not> isFinite (loss (history
            (gradientDescent points learningRate iterations initialSlope initialIntercept) ! k))
         \<longrightarrow> \<not> converged
                (gradientDescent points learningRate iterations initialSlope initialIntercept)
           \<and> Suc k = length (history
                (gradientDescent points learningRate iterations initialSlope initialIntercept)))"
proof -
  from gradientDescent_run [of points learningRate iterations initialSlope initialIntercept]
  obtain h where run:
    "gradientDescent points learningRate iterations initialSlope initialIntercept =
       \<lparr>finalSlope = (if h = [] then initialSlope else e_slope (last h)),
        finalIntercept = (if h = [] then initialIntercept else e_intercept (last h)),
        history = h, converged = (h \<noteq> [] \<and> isFinite (loss (last h)))\<rparr>"
    and stop: "\<forall>k<length h. \<not> isFinite (loss (h ! k)) \<longrightarrow> Suc k = length h"
    by blast
  have "\<not> isFinite (loss (last h)) \<and> Suc k = length h"
    if "k < length h" "\<not> isFinite (loss (h ! k))" for k
  proof -
    from stop that have "Suc k = length h" by simp
    with that show ?thesis by (cases h rule: rev_cases) (auto simp: nth_append)
  qed
  then show ?thesis unfolding run by simp
qed

theorem gradientDescent_converged_iff_witness:
  "\<not> converged (gradientDescent [\<lparr>px = Fin 1, py = Fin 2\<rparr>] PInf 5 (Fin 0) (Fin 0))
   \<and> length (history (gradientDescent [\<lparr>px = Fin 1, py = Fin 2\<rparr>] PInf 5 (Fin 0) (Fin 0))) = 1"
proof -
  have run: "history (gradientDescent [\<lparr>px = Fin 1, py = Fin 2\<rparr>] PInf 5 (Fin 0) (Fin 0)) =
      [\<lparr>epoch = 1, e_slope = PInf, e_intercept = PInf, loss = PInf,
        slopeGradient = Fin (- 4), interceptGradient = Fin (- 4)\<rparr>]"
    by (simp add: gradientDescent_def gd_loop.simps gd_epoch_def calculateMSE_def num_def
        Let_def)
  have "0 < length (history (gradientDescent [\<lparr>px = Fin 1, py = Fin 2\<rparr>] PInf 5 (Fin 0) (Fin 0)))"
    and "\<not> isFinite (loss (history
           (gradientDescent [\<lparr>px = Fin 1, py = Fin 2\<rparr>] PInf 5 (Fin 0) (Fin 0)) ! 0))"
    by (simp_all add: run)
  with gradientDescent_converged_iff [of "[\<lparr>px = Fin 1, py = Fin 2\<rparr>]" PInf 5 "Fin 0" "Fin 0"]
  show ?thesis by fastforce
qed

text \<open>
  C3. For every input, the history has at most \<open>iterations\<close> records, record \<open>k\<close> (from 0)
  is the one of epoch \<open>k + 1\<close>, and a record whose loss is not finite is in the history and
  is its last one: no epoch runs after it. A history shorter than \<open>iterations\<close> ends with
  such a record.
\<close>

theorem gradientDescent_history_bounded:
  "length (history (gradientDescent points learningRate iterations initialSlope initialIntercept))
     \<le> iterations
   \<and> (\<forall>k < length (history
            (gradientDescent points learningRate iterations initialSlope initialIntercept)).
         epoch (history
            (gradientDescent points learningRate iterations initialSlope initialIntercept) ! k)
           = Suc k
         \<and> (\<not> isFinite (loss (history
               (gradientDescent points learningRate iterations initialSlope initialIntercept) ! k))
            \<longrightarrow> Suc k = length (history
               (gradientDescent points learningRate iterations initialSlope initialIntercept))))
   \<and> (length (history
          (gradientDescent points learningRate iterations initialSlope initialIntercept))
        < iterations \<longrightarrow>
       history (gradientDescent points learningRate iterations initialSlope initialIntercept) \<noteq> []
       \<and> \<not> isFinite (loss (last (history
            (gradientDescent points learningRate iterations initialSlope initialIntercept)))))"
proof -
  from gradientDescent_run [of points learningRate iterations initialSlope initialIntercept]
  obtain h where run:
    "gradientDescent points learningRate iterations initialSlope initialIntercept =
       \<lparr>finalSlope = (if h = [] then initialSlope else e_slope (last h)),
        finalIntercept = (if h = [] then initialIntercept else e_intercept (last h)),
        history = h, converged = (h \<noteq> [] \<and> isFinite (loss (last h)))\<rparr>"
    and chain: "gd_chain points learningRate 0 initialSlope initialIntercept h"
    and len: "length h \<le> iterations"
    and stop: "\<forall>k<length h. \<not> isFinite (loss (h ! k)) \<longrightarrow> Suc k = length h"
    and short: "length h < iterations \<longrightarrow> h \<noteq> [] \<and> \<not> isFinite (loss (last h))"
    by blast
  have "epoch (h ! k) = Suc k" if "k < length h" for k
    using gd_chain_nth [OF chain that] by simp
  with len stop short show ?thesis unfolding run by simp
qed

theorem gradientDescent_history_bounded_witness:
  "length (history (gradientDescent [\<lparr>px = Fin 1, py = Fin 2\<rparr>] PInf 5 (Fin 0) (Fin 0))) = 1
   \<and> epoch (history (gradientDescent [\<lparr>px = Fin 1, py = Fin 2\<rparr>] PInf 5 (Fin 0) (Fin 0)) ! 0) = 1"
proof -
  have run: "history (gradientDescent [\<lparr>px = Fin 1, py = Fin 2\<rparr>] PInf 5 (Fin 0) (Fin 0)) =
      [\<lparr>epoch = 1, e_slope = PInf, e_intercept = PInf, loss = PInf,
        slopeGradient = Fin (- 4), interceptGradient = Fin (- 4)\<rparr>]"
    by (simp add: gradientDescent_def gd_loop.simps gd_epoch_def calculateMSE_def num_def
        Let_def)
  have "0 < length (history (gradientDescent [\<lparr>px = Fin 1, py = Fin 2\<rparr>] PInf 5 (Fin 0) (Fin 0)))"
    and "\<not> isFinite (loss (history
           (gradientDescent [\<lparr>px = Fin 1, py = Fin 2\<rparr>] PInf 5 (Fin 0) (Fin 0)) ! 0))"
    by (simp_all add: run)
  with gradientDescent_history_bounded [of "[\<lparr>px = Fin 1, py = Fin 2\<rparr>]" PInf 5 "Fin 0" "Fin 0"]
  show ?thesis by fastforce
qed

text \<open>
  C4. For a dataset that is not empty, record \<open>k\<close> of the history is computed from the
  parameters before its update, which are the initial ones for \<open>k = 0\<close> and those of
  record \<open>k - 1\<close> otherwise: both gradients are \<^verbatim>\<open>2 / n\<close> times the sum over the points of
  the prediction error (times \<^verbatim>\<open>x\<close> for the slope), both parameters move by the learning
  rate times their gradient, and the record holds the epoch number \<open>k + 1\<close>, the updated
  parameters, the mean squared error at the updated parameters, and the two gradients.
\<close>

theorem gradientDescent_epoch:
  assumes "points \<noteq> []"
    and "k < length (history
            (gradientDescent points learningRate iterations initialSlope initialIntercept))"
  shows
   "(let h = history
               (gradientDescent points learningRate iterations initialSlope initialIntercept);
         slope = (if k = 0 then initialSlope else e_slope (h ! (k - 1)));
         intercept = (if k = 0 then initialIntercept else e_intercept (h ! (k - 1)));
         n = num (length points);
         sGradient = (Fin 2 / n) * (\<Sum>p\<leftarrow>points. (slope * px p + intercept - py p) * px p);
         iGradient = (Fin 2 / n) * (\<Sum>p\<leftarrow>points. slope * px p + intercept - py p)
     in h ! k =
          \<lparr>epoch = k + 1,
           e_slope = slope - learningRate * sGradient,
           e_intercept = intercept - learningRate * iGradient,
           loss = calculateMSE points (slope - learningRate * sGradient)
                    (intercept - learningRate * iGradient),
           slopeGradient = sGradient, interceptGradient = iGradient\<rparr>)"
proof -
  from gradientDescent_run [of points learningRate iterations initialSlope initialIntercept]
  obtain h where run:
    "gradientDescent points learningRate iterations initialSlope initialIntercept =
       \<lparr>finalSlope = (if h = [] then initialSlope else e_slope (last h)),
        finalIntercept = (if h = [] then initialIntercept else e_intercept (last h)),
        history = h, converged = (h \<noteq> [] \<and> isFinite (loss (last h)))\<rparr>"
    and chain: "gd_chain points learningRate 0 initialSlope initialIntercept h"
    by blast
  from assms(2) have "k < length h" by (simp add: run)
  from gd_chain_nth [OF chain this] show ?thesis
    unfolding run by (simp add: gd_epoch_sum Let_def)
qed

theorem gradientDescent_epoch_witness:
  "history (gradientDescent [\<lparr>px = Fin 1, py = Fin 2\<rparr>] (Fin 0.1) 2 (Fin 0) (Fin 0)) ! 1 =
     \<lparr>epoch = 2, e_slope = Fin 0.64, e_intercept = Fin 0.64, loss = Fin 0.5184,
      slopeGradient = Fin (- 2.4), interceptGradient = Fin (- 2.4)\<rparr>"
proof -
  have run: "history (gradientDescent [\<lparr>px = Fin 1, py = Fin 2\<rparr>] (Fin 0.1) 2 (Fin 0) (Fin 0)) =
      [\<lparr>epoch = 1, e_slope = Fin 0.4, e_intercept = Fin 0.4, loss = Fin 1.44,
        slopeGradient = Fin (- 4), interceptGradient = Fin (- 4)\<rparr>,
       \<lparr>epoch = 2, e_slope = Fin 0.64, e_intercept = Fin 0.64, loss = Fin 0.5184,
        slopeGradient = Fin (- 2.4), interceptGradient = Fin (- 2.4)\<rparr>]"
    by (simp add: gradientDescent_def gd_loop.simps gd_epoch_def calculateMSE_def num_def
        Let_def power2_eq_square)
  have ne: "[\<lparr>px = Fin 1, py = Fin 2\<rparr>] \<noteq> []" by simp
  have k: "1 < length (history
      (gradientDescent [\<lparr>px = Fin 1, py = Fin 2\<rparr>] (Fin 0.1) 2 (Fin 0) (Fin 0)))"
    by (simp add: run)
  from gradientDescent_epoch [OF ne k] show ?thesis
    by (simp add: run)
qed


section \<open>The least squares fit and the coefficient of determination\<close>

lemma calculateR2_sum:
  "calculateR2 points slope intercept =
     (if length points < 2 \<or> SS_tot points = Fin 0 then Fin 0
      else Fin 1 - SS_res points slope intercept / SS_tot points)"
  by (simp add: calculateR2_def Let_def fold_add_sum_list_0 SS_tot_def SS_res_def mean_y_def)

lemma finite_pointE:
  assumes "finite_point p"
  obtains a b where "px p = Fin a" "py p = Fin b"
  using assms by (cases "px p"; cases "py p") (simp_all add: finite_point_def)

lemma finite_point_px: "finite_point p \<Longrightarrow> px p = Fin (val (px p))"
  by (cases "px p") (simp_all add: finite_point_def)

lemma finite_point_py: "finite_point p \<Longrightarrow> py p = Fin (val (py p))"
  by (cases "py p") (simp_all add: finite_point_def)

lemma sum_list_Fin_val:
  "(\<And>p. p \<in> set ps \<Longrightarrow> f p = Fin (g p)) \<Longrightarrow> (\<Sum>p\<leftarrow>ps. f p) = Fin (\<Sum>p\<leftarrow>ps. g p)"
  by (induction ps) (simp_all add: zero_jsnum_def)

lemma mean_y_finite:
  assumes "\<And>p. p \<in> set ps \<Longrightarrow> finite_point p" "ps \<noteq> []"
  shows "mean_y ps = Fin ((\<Sum>p\<leftarrow>ps. val (py p)) / real (length ps))"
proof -
  have "(\<Sum>p\<leftarrow>ps. py p) = Fin (\<Sum>p\<leftarrow>ps. val (py p))"
    by (rule sum_list_Fin_val) (rule finite_point_py, rule assms(1))
  with assms(2) show ?thesis by (simp add: mean_y_def num_def)
qed

lemma SS_tot_finite:
  assumes "\<And>p. p \<in> set ps \<Longrightarrow> finite_point p" "ps \<noteq> []"
  shows "SS_tot ps =
     Fin (\<Sum>p\<leftarrow>ps. (val (py p) - (\<Sum>q\<leftarrow>ps. val (py q)) / real (length ps))\<^sup>2)"
proof -
  define mu where "mu = (\<Sum>q\<leftarrow>ps. val (py q)) / real (length ps)"
  have "jsq (py p - Fin mu) = Fin ((val (py p) - mu)\<^sup>2)" if "p \<in> set ps" for p
  proof -
    from that have "py p = Fin (val (py p))"
      by (intro finite_point_py assms(1))
    then show ?thesis
      by (metis jsq.simps(1) minus_Fin)
  qed
  then have "(\<Sum>p\<leftarrow>ps. jsq (py p - Fin mu)) = Fin (\<Sum>p\<leftarrow>ps. (val (py p) - mu)\<^sup>2)"
    by (rule sum_list_Fin_val)
  then show ?thesis
    by (simp add: SS_tot_def mean_y_finite [OF assms] mu_def)
qed

lemma SS_tot_positive:
  assumes fin: "\<And>p. p \<in> set ps \<Longrightarrow> finite_point p"
    and p: "p \<in> set ps" and q: "q \<in> set ps" and ne: "py p \<noteq> py q"
  shows "\<exists>t. SS_tot ps = Fin t \<and> t \<noteq> 0"
proof -
  from p have ne_Nil: "ps \<noteq> []" by auto
  define mu where "mu = (\<Sum>q\<leftarrow>ps. val (py q)) / real (length ps)"
  define t where "t = (\<Sum>p\<leftarrow>ps. (val (py p) - mu)\<^sup>2)"
  have tot: "SS_tot ps = Fin t"
    using SS_tot_finite [OF fin ne_Nil] by (simp add: t_def mu_def)
  have "t \<noteq> 0"
  proof
    assume "t = 0"
    then have "\<forall>v\<in>set (map (\<lambda>p. (val (py p) - mu)\<^sup>2) ps). v = 0"
      unfolding t_def by (subst (asm) sum_list_nonneg_eq_0_iff) auto
    then have all: "val (py r) = mu" if "r \<in> set ps" for r
      using that by auto
    from fin [OF p] fin [OF q] obtain b c where "py p = Fin b" "py q = Fin c"
      by (auto elim!: finite_pointE)
    with all [OF p] all [OF q] ne show False by simp
  qed
  with tot show ?thesis by blast
qed

lemma length_ge_2:
  assumes "p \<in> set ps" "q \<in> set ps" "p \<noteq> q"
  shows "2 \<le> length ps"
proof (cases ps)
  case Nil
  with assms show ?thesis by simp
next
  case (Cons a as)
  with assms show ?thesis by (cases as) auto
qed






section \<open>The cost surface\<close>

declare cs_inner.simps [simp del] cs_outer.simps [simp del]

lemma cs_inner_rows:
  "cs_inner ps sR iR sS iS res i j (sRow, iRow, cRow) =
     (sRow @ map (\<lambda>j. fst sR + num i * sS) [j..<Suc res],
      iRow @ map (\<lambda>j. fst iR + num j * iS) [j..<Suc res],
      cRow @ map (\<lambda>j. calculateMSE ps (fst sR + num i * sS) (fst iR + num j * iS)) [j..<Suc res])"
proof (induction "Suc res - j" arbitrary: j sRow iRow cRow)
  case 0
  then have "res < j" by simp
  then show ?case by (subst cs_inner.simps) simp
next
  case (Suc d)
  then have le: "j \<le> res" and d: "d = Suc res - (j + 1)" by simp_all
  from le have upt: "[j..<Suc res] = j # [j + 1..<Suc res]"
    by (simp add: upt_conv_Cons)
  have "cs_inner ps sR iR sS iS res i j (sRow, iRow, cRow) =
        cs_inner ps sR iR sS iS res i (j + 1)
          (sRow @ [fst sR + num i * sS], iRow @ [fst iR + num j * iS],
           cRow @ [calculateMSE ps (fst sR + num i * sS) (fst iR + num j * iS)])"
    using le by (subst cs_inner.simps) (simp add: Let_def)
  then show ?case
    unfolding Suc.hyps(1) [OF d] upt by simp
qed

lemma cs_outer_grids:
  "cs_outer ps sR iR sS iS res i (sGrid, iGrid, cGrid) =
     (sGrid @ map (\<lambda>i. map (\<lambda>j. fst sR + num i * sS) [0..<Suc res]) [i..<Suc res],
      iGrid @ map (\<lambda>i. map (\<lambda>j. fst iR + num j * iS) [0..<Suc res]) [i..<Suc res],
      cGrid @ map (\<lambda>i. map (\<lambda>j. calculateMSE ps (fst sR + num i * sS) (fst iR + num j * iS))
                          [0..<Suc res]) [i..<Suc res])"
proof (induction "Suc res - i" arbitrary: i sGrid iGrid cGrid)
  case 0
  then have "res < i" by simp
  then show ?case by (subst cs_outer.simps) simp
next
  case (Suc d)
  then have le: "i \<le> res" and d: "d = Suc res - (i + 1)" by simp_all
  from le have upt: "[i..<Suc res] = i # [i + 1..<Suc res]"
    by (simp add: upt_conv_Cons)
  have "cs_outer ps sR iR sS iS res i (sGrid, iGrid, cGrid) =
        cs_outer ps sR iR sS iS res (i + 1)
          (sGrid @ [map (\<lambda>j. fst sR + num i * sS) [0..<Suc res]],
           iGrid @ [map (\<lambda>j. fst iR + num j * iS) [0..<Suc res]],
           cGrid @ [map (\<lambda>j. calculateMSE ps (fst sR + num i * sS) (fst iR + num j * iS))
                        [0..<Suc res]])"
    using le by (subst cs_outer.simps) (simp add: cs_inner_rows del: upt_Suc)
  then show ?case
    unfolding Suc.hyps(1) [OF d] upt by simp
qed

lemma generateCostSurface_maps:
  "generateCostSurface ps sR iR res =
     (let sS = (snd sR - fst sR) / num res; iS = (snd iR - fst iR) / num res
      in \<lparr>slopes = map (\<lambda>i. map (\<lambda>j. fst sR + num i * sS) [0..<Suc res]) [0..<Suc res],
          intercepts = map (\<lambda>i. map (\<lambda>j. fst iR + num j * iS) [0..<Suc res]) [0..<Suc res],
          costs = map (\<lambda>i. map (\<lambda>j. calculateMSE ps (fst sR + num i * sS) (fst iR + num j * iS))
                              [0..<Suc res]) [0..<Suc res]\<rparr>)"
  by (simp add: generateCostSurface_def Let_def cs_outer_grids del: upt_Suc)

text \<open>
  C8. For every dataset, every two ranges and every resolution, the three grids of
  \<^verbatim>\<open>generateCostSurface\<close> have \<open>resolution + 1\<close> rows of \<open>resolution + 1\<close> entries each; at
  row \<open>i\<close> and column \<open>j\<close> the slope is \<open>slopeRange[0] + i * slopeStep\<close>, the intercept is
  \<open>interceptRange[0] + j * interceptStep\<close>, where a step is the width of its range divided
  by the resolution, and the cost is \<^verbatim>\<open>calculateMSE\<close> of the dataset at that slope and
  intercept. With resolution 10 the grids are 11 by 11.
\<close>

theorem generateCostSurface_grid:
  "(let g = generateCostSurface points slopeRange interceptRange resolution;
        slopeStep = (snd slopeRange - fst slopeRange) / num resolution;
        interceptStep = (snd interceptRange - fst interceptRange) / num resolution
    in length (slopes g) = resolution + 1
       \<and> length (intercepts g) = resolution + 1
       \<and> length (costs g) = resolution + 1
       \<and> (\<forall>i\<le>resolution.
            length (slopes g ! i) = resolution + 1
            \<and> length (intercepts g ! i) = resolution + 1
            \<and> length (costs g ! i) = resolution + 1
            \<and> (\<forall>j\<le>resolution.
                 slopes g ! i ! j = fst slopeRange + num i * slopeStep
                 \<and> intercepts g ! i ! j = fst interceptRange + num j * interceptStep
                 \<and> costs g ! i ! j =
                     calculateMSE points (slopes g ! i ! j) (intercepts g ! i ! j))))"
proof -
  have nth: "map f [0..<Suc n] ! k = f k" if "k \<le> n" for f :: "nat \<Rightarrow> 'b" and n k
    using that nth_map_upt [of k "Suc n" 0 f] by simp
  show ?thesis
    unfolding generateCostSurface_maps Let_def
    by (simp add: nth del: upt_Suc)
qed

theorem generateCostSurface_grid_witness:
  "length (slopes (generateCostSurface [\<lparr>px = Fin 1, py = Fin 2\<rparr>]
      (Fin (- 2), Fin 2) (Fin (- 5), Fin 5) 10)) = 11
   \<and> length (costs (generateCostSurface [\<lparr>px = Fin 1, py = Fin 2\<rparr>]
      (Fin (- 2), Fin 2) (Fin (- 5), Fin 5) 10) ! 10) = 11
   \<and> slopes (generateCostSurface [\<lparr>px = Fin 1, py = Fin 2\<rparr>]
      (Fin (- 2), Fin 2) (Fin (- 5), Fin 5) 10) ! 10 ! 5 = Fin 2
   \<and> intercepts (generateCostSurface [\<lparr>px = Fin 1, py = Fin 2\<rparr>]
      (Fin (- 2), Fin 2) (Fin (- 5), Fin 5) 10) ! 10 ! 5 = Fin 0
   \<and> costs (generateCostSurface [\<lparr>px = Fin 1, py = Fin 2\<rparr>]
      (Fin (- 2), Fin 2) (Fin (- 5), Fin 5) 10) ! 10 ! 5 = Fin 0"
proof -
  have i: "(10::nat) \<le> 10" and j: "(5::nat) \<le> 10" by simp_all
  have mse: "calculateMSE [\<lparr>px = Fin 1, py = Fin 2\<rparr>] (Fin 2) (Fin 0) = Fin 0"
    by (simp add: calculateMSE_def num_def)
  from generateCostSurface_grid
         [of "[\<lparr>px = Fin 1, py = Fin 2\<rparr>]" "(Fin (- 2), Fin 2)" "(Fin (- 5), Fin 5)" 10] i j
  show ?thesis
    by (simp add: Let_def num_def mse)
qed

section \<open>Outlier detection by the interquartile range\<close>

lemma js_insert_insort:
  assumes "residual a = Fin u" "\<And>b. b \<in> set bs \<Longrightarrow> isFinite (residual b)"
  shows "map (\<lambda>e. val (residual e)) (js_insert (\<lambda>a b. residual a - residual b) a bs) =
         insort u (map (\<lambda>e. val (residual e)) bs)"
  using assms(2)
proof (induction bs)
  case Nil
  show ?case by (simp add: assms(1))
next
  case (Cons b bs)
  then have "isFinite (residual b)" by simp
  then obtain v where v: "residual b = Fin v" by (cases "residual b") simp_all
  from Cons have "map (\<lambda>e. val (residual e)) (js_insert (\<lambda>a b. residual a - residual b) a bs) =
         insort u (map (\<lambda>e. val (residual e)) bs)" by simp
  then show ?case
    by (auto simp: assms(1) v)
qed

lemma js_insert_set:
  "set (js_insert comparefn a bs) = insert a (set bs)"
  by (induction bs) auto

lemma js_insert_length [simp]:
  "length (js_insert comparefn a bs) = Suc (length bs)"
  by (induction bs) auto

lemma js_sort_set: "set (js_sort comparefn xs) = set xs"
  by (induction xs) (simp_all add: js_sort_def js_insert_set)

lemma js_sort_length [simp]: "length (js_sort comparefn xs) = length xs"
  by (induction xs) (simp_all add: js_sort_def)

lemma js_sort_sort:
  assumes "\<And>b. b \<in> set es \<Longrightarrow> isFinite (residual b)"
  shows "map (\<lambda>e. val (residual e)) (js_sort (\<lambda>a b. residual a - residual b) es) =
         sort (map (\<lambda>e. val (residual e)) es)"
  using assms
proof (induction es)
  case Nil
  show ?case by (simp add: js_sort_def)
next
  case (Cons a es)
  then have "isFinite (residual a)" by simp
  then obtain u where u: "residual a = Fin u" by (cases "residual a") simp_all
  have fin: "isFinite (residual b)"
    if "b \<in> set (js_sort (\<lambda>a b. residual a - residual b) es)" for b
    using that Cons.prems by (simp add: js_sort_set)
  have "js_sort (\<lambda>a b. residual a - residual b) (a # es) =
        js_insert (\<lambda>a b. residual a - residual b) a (js_sort (\<lambda>a b. residual a - residual b) es)"
    by (simp add: js_sort_def)
  then show ?case
    using js_insert_insort [OF u fin] Cons.IH Cons.prems
    by (simp add: u)
qed

lemma floor_index_quarter: "floor_index (real n * 0.25) = n div 4"
proof -
  have "real n * 0.25 = real n / real 4" by simp
  then show ?thesis
    unfolding floor_index_def by (simp only: floor_divide_of_nat_eq nat_int)
qed

lemma floor_index_three_quarters: "floor_index (real n * 0.75) = (3 * n) div 4"
proof -
  have "real n * 0.75 = real (3 * n) / real 4" by simp
  then show ?thesis
    unfolding floor_index_def by (simp only: floor_divide_of_nat_eq nat_int)
qed





section \<open>The root mean squared error\<close>



section \<open>The normal equation is the least squares fit\<close>

text \<open>
  C10. \<^verbatim>\<open>normalEquation\<close> returns, for every dataset, what \<^verbatim>\<open>calculateLinearRegression\<close>
  returns: the same slope, intercept, predictions and means.
\<close>

theorem normalEquation_is_calculateLinearRegression:
  "normalEquation points = calculateLinearRegression points"
  by (simp add: normalEquation_def)

end
